theory Spec2Isabelle
  imports Complex_Main
begin

section \<open>Configuration and runtime state of the heating watchdog\<close>

text \<open>
  The embedding follows \<^verbatim>\<open>heating-watchdog.js\<close>. JavaScript numbers that hold
  temperatures are modelled as \<^typ>\<open>real\<close> (finite numbers with exact subtraction;
  \<^verbatim>\<open>NaN\<close> and rounding are outside the model), millisecond timestamps and the cycle
  counter as \<^typ>\<open>int\<close>. The module-level \<^verbatim>\<open>let\<close> variables become the record
  \<open>watchdog\<close>, which every handler takes and returns. Log output is not modelled.
\<close>

record config =
  checkIntervalMs :: int
  cycleWaitMs :: int
  powerOffDurationMs :: int
  tempThreshold :: real
  maxCycles :: int
  thermostatName :: string
  plugName :: string

definition CONFIG :: config where
  "CONFIG =
     \<lparr>checkIntervalMs = 60 * 1000,
      cycleWaitMs = 10 * 60 * 1000,
      powerOffDurationMs = 10 * 1000,
      tempThreshold = 2,
      maxCycles = 3,
      thermostatName = ''Living Room'',
      plugName = ''Living Room''\<rparr>"

datatype State = MONITORING | WAITING_FOR_IGNITION | WAITING_AFTER_CYCLE | FAILED

text \<open>An entry of \<^verbatim>\<open>tempHistory\<close>: \<^verbatim>\<open>{ timestamp, temperature, setpoint }\<close>.\<close>

record Sample =
  timestamp :: int
  temperature :: real
  setpoint :: real

definition MAX_HISTORY :: nat where
  "MAX_HISTORY = 10"

subsection \<open>History buffer\<close>

text \<open>
  \<^verbatim>\<open>addTempReading(temperature, setpoint)\<close>: \<^verbatim>\<open>push\<close> the new reading, then
  \<^verbatim>\<open>shift\<close> once if the length exceeds \<^verbatim>\<open>MAX_HISTORY\<close>. The value of
  \<^verbatim>\<open>Date.now()\<close> is the first argument, the global \<^verbatim>\<open>tempHistory\<close> the last.
\<close>

definition addTempReading :: "int \<Rightarrow> real \<Rightarrow> real \<Rightarrow> Sample list \<Rightarrow> Sample list" where
  "addTempReading now t sp hist =
     (let pushed = hist @ [\<lparr>timestamp = now, temperature = t, setpoint = sp\<rparr>]
      in if length pushed > MAX_HISTORY then tl pushed else pushed)"

subsection \<open>Trend detector\<close>

text \<open>
  \<^verbatim>\<open>isTemperatureDeclining()\<close> reads the global \<^verbatim>\<open>tempHistory\<close>, here its argument.
  \<^verbatim>\<open>Math.max(0, length - 3)\<close> is computed on integers as in the source; both
  indices are in range once the length test has passed.
\<close>

definition isTemperatureDeclining :: "Sample list \<Rightarrow> bool" where
  "isTemperatureDeclining hist =
     (if length hist < 2 then False
      else
        let current = hist ! (length hist - 1);
            compareIndex = nat (max 0 (int (length hist) - 3));
            previous = hist ! compareIndex
        in if setpoint current < setpoint previous then False
           else
             let delta = temperature previous - temperature current;
                 declining = (delta \<ge> 1)
             in declining)"

section \<open>The device gateway and the world outside the process\<close>

text \<open>
  The Wyze client (\<^verbatim>\<open>wyze\<close>), the wall clock and the timer are outside the program.
  They are a parameter of the model: \<open>'w\<close> is the state of everything outside the
  process, and each awaited call maps that state to a result and a new state. A call
  that rejects (throws) returns \<open>Inl\<close>. Truthiness of the values returned by
  \<^verbatim>\<open>plugOff\<close>, \<^verbatim>\<open>plugOn\<close> and \<^verbatim>\<open>isPlugOn\<close> is a \<^typ>\<open>bool\<close>; a falsy
  thermostat payload is \<open>None\<close>.

  A thrown value is either \<^verbatim>\<open>undefined\<close> or \<^verbatim>\<open>null\<close> (\<open>Nullish\<close>), or any other
  value (\<open>Error\<close>: an \<^verbatim>\<open>Error\<close> object with its message, or a value whose
  \<^verbatim>\<open>.message\<close> can be read without an exception). JavaScript lets a promise reject
  with either kind, and the two differ in the \<^verbatim>\<open>catch\<close> block of \<^verbatim>\<open>tick\<close>.
\<close>

datatype exn = Error string | Nullish

record device =
  nickname :: string
  product_type :: string
  mac :: string
  product_model :: string

text \<open>
  The payload of \<^verbatim>\<open>wyze.getThermostat\<close>; the field \<^verbatim>\<open>temperature\<close> is named
  \<open>data_temperature\<close> here, apart from the field of \<open>Sample\<close>.
\<close>

record thermostat_data =
  workingState :: string
  data_temperature :: real
  heatSetpoint :: real

record 'w env =
  getDevices :: "'w \<Rightarrow> (exn + device list) \<times> 'w"
  getThermostat :: "string \<Rightarrow> 'w \<Rightarrow> (exn + thermostat_data option) \<times> 'w"
  plugOff :: "string \<Rightarrow> string \<Rightarrow> 'w \<Rightarrow> (exn + bool) \<times> 'w"
  plugOn :: "string \<Rightarrow> string \<Rightarrow> 'w \<Rightarrow> (exn + bool) \<times> 'w"
  isPlugOn :: "string \<Rightarrow> string \<Rightarrow> 'w \<Rightarrow> (exn + bool) \<times> 'w"
  Date_now :: "'w \<Rightarrow> int"
  setTimeout :: "int \<Rightarrow> 'w \<Rightarrow> 'w"

text \<open>
  \<^verbatim>\<open>wyze.isPlugOn\<close> reads the power state of the plug. The program calls it once, in the
  startup check of \<^verbatim>\<open>main\<close> (line 284), which precedes the first tick and is not part
  of this model; no handler and no procedure below calls it.
\<close>

text \<open>
  A log of the gateway calls made so far, each with what it returned. The log is a ghost
  variable: the source has no such list, and no definition below reads it. It exists so
  that theorems can say which commands a tick has sent.
\<close>

datatype call =
    GetDevices "exn + device list"
  | GetThermostat string "exn + thermostat_data option"
  | PlugOff string string "exn + bool"
  | PlugOn string string "exn + bool"

record 'w io =
  world :: 'w
  calls :: "call list"

definition wyze_getDevices :: "'w env \<Rightarrow> 'w io \<Rightarrow> (exn + device list) \<times> 'w io" where
  "wyze_getDevices env io =
     (case getDevices env (world io) of
        (r, w) \<Rightarrow> (r, \<lparr>world = w, calls = calls io @ [GetDevices r]\<rparr>))"

definition wyze_getThermostat ::
  "'w env \<Rightarrow> string \<Rightarrow> 'w io \<Rightarrow> (exn + thermostat_data option) \<times> 'w io" where
  "wyze_getThermostat env m io =
     (case getThermostat env m (world io) of
        (r, w) \<Rightarrow> (r, \<lparr>world = w, calls = calls io @ [GetThermostat m r]\<rparr>))"

definition wyze_plugOff :: "'w env \<Rightarrow> string \<Rightarrow> string \<Rightarrow> 'w io \<Rightarrow> (exn + bool) \<times> 'w io" where
  "wyze_plugOff env m pm io =
     (case plugOff env m pm (world io) of
        (r, w) \<Rightarrow> (r, \<lparr>world = w, calls = calls io @ [PlugOff m pm r]\<rparr>))"

definition wyze_plugOn :: "'w env \<Rightarrow> string \<Rightarrow> string \<Rightarrow> 'w io \<Rightarrow> (exn + bool) \<times> 'w io" where
  "wyze_plugOn env m pm io =
     (case plugOn env m pm (world io) of
        (r, w) \<Rightarrow> (r, \<lparr>world = w, calls = calls io @ [PlugOn m pm r]\<rparr>))"

text \<open>\<^verbatim>\<open>sleep(ms)\<close>: time passes outside; no gateway call is made.\<close>

definition sleep :: "'w env \<Rightarrow> int \<Rightarrow> 'w io \<Rightarrow> 'w io" where
  "sleep env ms io = io\<lparr>world := setTimeout env ms (world io)\<rparr>"

definition getPlugByName :: "'w env \<Rightarrow> string \<Rightarrow> 'w io \<Rightarrow> (exn + device option) \<times> 'w io" where
  "getPlugByName env name io =
     (case wyze_getDevices env io of
        (Inl e, io1) \<Rightarrow> (Inl e, io1)
      | (Inr devices, io1) \<Rightarrow>
          (Inr (find (\<lambda>d. nickname d = name \<and> product_type d = ''Plug'') devices), io1))"

definition getThermostatByName ::
  "'w env \<Rightarrow> string \<Rightarrow> 'w io \<Rightarrow> (exn + device option) \<times> 'w io" where
  "getThermostatByName env name io =
     (case wyze_getDevices env io of
        (Inl e, io1) \<Rightarrow> (Inl e, io1)
      | (Inr devices, io1) \<Rightarrow>
          (Inr (find (\<lambda>d. nickname d = name \<and> product_type d = ''Thermostat'') devices), io1))"

section \<open>Power cycle procedure\<close>

text \<open>
  \<^verbatim>\<open>cyclePlug()\<close> returns \<^verbatim>\<open>false\<close> when the plug is not found or a command reports
  failure, \<^verbatim>\<open>true\<close> after \<^verbatim>\<open>plugOn\<close> has reported success; an exception of any
  gateway call leaves the function at that call.
\<close>

definition cyclePlug :: "'w env \<Rightarrow> 'w io \<Rightarrow> (exn + bool) \<times> 'w io" where
  "cyclePlug env io =
     (case getPlugByName env (plugName CONFIG) io of
        (Inl e, io1) \<Rightarrow> (Inl e, io1)
      | (Inr None, io1) \<Rightarrow> (Inr False, io1)
      | (Inr (Some plug), io1) \<Rightarrow>
          (case wyze_plugOff env (mac plug) (product_model plug) io1 of
             (Inl e, io2) \<Rightarrow> (Inl e, io2)
           | (Inr offSuccess, io2) \<Rightarrow>
               if \<not> offSuccess then (Inr False, io2)
               else
                 let io3 = sleep env (powerOffDurationMs CONFIG) io2
                 in (case wyze_plugOn env (mac plug) (product_model plug) io3 of
                       (Inl e, io4) \<Rightarrow> (Inl e, io4)
                     | (Inr onSuccess, io4) \<Rightarrow>
                         if \<not> onSuccess then (Inr False, io4) else (Inr True, io4))))"

definition checkThermostat :: "'w env \<Rightarrow> 'w io \<Rightarrow> (exn + thermostat_data option) \<times> 'w io" where
  "checkThermostat env io =
     (case getThermostatByName env (thermostatName CONFIG) io of
        (Inl e, io1) \<Rightarrow> (Inl e, io1)
      | (Inr None, io1) \<Rightarrow> (Inr None, io1)
      | (Inr (Some thermo), io1) \<Rightarrow> wyze_getThermostat env (mac thermo) io1)"

section \<open>Watchdog state machine\<close>

text \<open>
  The runtime variables \<^verbatim>\<open>state\<close>, \<^verbatim>\<open>cycleCount\<close>, \<^verbatim>\<open>lastCycleTime\<close>,
  \<^verbatim>\<open>ignitionStartTime\<close>, \<^verbatim>\<open>lastWorkingState\<close> and \<^verbatim>\<open>tempHistory\<close>;
  \<^verbatim>\<open>null\<close> is \<open>None\<close>.
\<close>

record watchdog =
  state :: State
  cycleCount :: int
  lastCycleTime :: "int option"
  ignitionStartTime :: "int option"
  lastWorkingState :: "string option"
  tempHistory :: "Sample list"

definition initial :: watchdog where
  "initial =
     \<lparr>state = MONITORING, cycleCount = 0, lastCycleTime = None, ignitionStartTime = None,
      lastWorkingState = None, tempHistory = []\<rparr>"

text \<open>
  A handler returns \<open>Inr ()\<close> when it completes and \<open>Inl e\<close> when an awaited call threw
  \<open>e\<close>; in both cases it returns the runtime variables as they are at that moment, since
  assignments made before an exception stay made.
\<close>

definition handleMonitoring ::
  "'w env \<Rightarrow> watchdog \<Rightarrow> 'w io \<Rightarrow> (exn + unit) \<times> watchdog \<times> 'w io" where
  "handleMonitoring env wd io =
     (case checkThermostat env io of
        (Inl e, io1) \<Rightarrow> (Inl e, wd, io1)
      | (Inr None, io1) \<Rightarrow> (Inr (), wd, io1)
      | (Inr (Some data), io1) \<Rightarrow>
          let tempDiff = heatSetpoint data - data_temperature data;
              isHeating = (workingState data = ''heating'');
              isBelowThreshold = (tempDiff \<ge> tempThreshold CONFIG)
          in if isHeating \<and> lastWorkingState wd \<noteq> Some ''heating'' then
               (Inr (),
                wd\<lparr>ignitionStartTime := Some (Date_now env (world io1)),
                   tempHistory := [],
                   lastWorkingState := Some (workingState data),
                   state := WAITING_FOR_IGNITION\<rparr>,
                io1)
             else
               let wd1 = wd\<lparr>lastWorkingState := Some (workingState data)\<rparr>;
                   wd2 = wd1\<lparr>tempHistory :=
                           addTempReading (Date_now env (world io1)) (data_temperature data)
                             (heatSetpoint data) (tempHistory wd1)\<rparr>;
                   isDeclining = isTemperatureDeclining (tempHistory wd2);
                   wd3 = (if cycleCount wd2 > 0 \<and> (\<not> isHeating \<or> \<not> isBelowThreshold)
                          then wd2\<lparr>cycleCount := 0\<rparr> else wd2)
               in if isHeating \<and> isBelowThreshold \<and> isDeclining then
                    if cycleCount wd3 \<ge> maxCycles CONFIG then
                      (Inr (), wd3\<lparr>state := FAILED\<rparr>, io1)
                    else
                      (case cyclePlug env io1 of
                         (Inl e, io2) \<Rightarrow> (Inl e, wd3, io2)
                       | (Inr success, io2) \<Rightarrow>
                           if success then
                             (Inr (),
                              wd3\<lparr>cycleCount := cycleCount wd3 + 1,
                                  lastCycleTime := Some (Date_now env (world io2)),
                                  state := WAITING_AFTER_CYCLE\<rparr>,
                              io2)
                           else (Inr (), wd3, io2))
                  else (Inr (), wd3, io1))"

text \<open>
  In \<^verbatim>\<open>Date.now() - ignitionStartTime\<close> a \<^verbatim>\<open>null\<close> start time counts as 0, as
  JavaScript's subtraction converts it.
\<close>

definition handleWaitingForIgnition ::
  "'w env \<Rightarrow> watchdog \<Rightarrow> 'w io \<Rightarrow> (exn + unit) \<times> watchdog \<times> 'w io" where
  "handleWaitingForIgnition env wd io =
     (let elapsed = Date_now env (world io)
                      - (case ignitionStartTime wd of None \<Rightarrow> 0 | Some t \<Rightarrow> t);
          remaining = cycleWaitMs CONFIG - elapsed
      in if remaining > 0 then (Inr (), wd, io)
         else (Inr (), wd\<lparr>tempHistory := [], state := MONITORING\<rparr>, io))"

definition handleWaitingAfterCycle ::
  "'w env \<Rightarrow> watchdog \<Rightarrow> 'w io \<Rightarrow> (exn + unit) \<times> watchdog \<times> 'w io" where
  "handleWaitingAfterCycle env wd io =
     (let elapsed = Date_now env (world io)
                      - (case lastCycleTime wd of None \<Rightarrow> 0 | Some t \<Rightarrow> t);
          remaining = cycleWaitMs CONFIG - elapsed
      in if remaining > 0 then (Inr (), wd, io)
         else (Inr (), wd\<lparr>tempHistory := [], state := MONITORING\<rparr>, io))"

definition handleFailed ::
  "'w env \<Rightarrow> watchdog \<Rightarrow> 'w io \<Rightarrow> (exn + unit) \<times> watchdog \<times> 'w io" where
  "handleFailed env wd io =
     (case checkThermostat env io of
        (Inl e, io1) \<Rightarrow> (Inl e, wd, io1)
      | (Inr None, io1) \<Rightarrow> (Inr (), wd, io1)
      | (Inr (Some data), io1) \<Rightarrow>
          let tempDiff = heatSetpoint data - data_temperature data;
              isHeating = (workingState data = ''heating'');
              isBelowThreshold = (tempDiff \<ge> tempThreshold CONFIG)
          in if \<not> isHeating \<or> \<not> isBelowThreshold then
               (Inr (), wd\<lparr>cycleCount := 0, tempHistory := [], state := MONITORING\<rparr>, io1)
             else (Inr (), wd, io1))"

text \<open>
  \<^verbatim>\<open>tick()\<close>: the \<^verbatim>\<open>switch\<close> over the state inside \<^verbatim>\<open>try\<close>, and the
  \<^verbatim>\<open>catch\<close> block, which evaluates \<^verbatim>\<open>error.message\<close> for the log line (line 247).
  For a thrown \<^verbatim>\<open>undefined\<close> or \<^verbatim>\<open>null\<close> that property access throws a
  \<^verbatim>\<open>TypeError\<close> inside the \<^verbatim>\<open>catch\<close> block, and \<^verbatim>\<open>tick\<close> rejects with it; for
  every other thrown value the line is logged and \<^verbatim>\<open>tick\<close> completes normally.
\<close>

definition tick :: "'w env \<Rightarrow> watchdog \<Rightarrow> 'w io \<Rightarrow> (exn + unit) \<times> watchdog \<times> 'w io" where
  "tick env wd io =
     (case (case state wd of
              MONITORING \<Rightarrow> handleMonitoring env wd io
            | WAITING_FOR_IGNITION \<Rightarrow> handleWaitingForIgnition env wd io
            | WAITING_AFTER_CYCLE \<Rightarrow> handleWaitingAfterCycle env wd io
            | FAILED \<Rightarrow> handleFailed env wd io) of
        (Inl error, wd', io') \<Rightarrow>
          (case error of
             Error message \<Rightarrow> (Inr (), wd', io')
           | Nullish \<Rightarrow> (Inl (Error ''TypeError: Cannot read properties (reading message)''),
                         wd', io'))
      | (Inr done, wd', io') \<Rightarrow> (Inr (), wd', io'))"

text \<open>
  \<^verbatim>\<open>handleMonitoring\<close> reads and writes the runtime variables in two stretches,
  separated by \<^verbatim>\<open>await cyclePlug()\<close> (line 171): lines 127 to 170 up to the call, and
  lines 172 to 177 after it. The first stretch either ends the handler (\<open>Inl\<close>, with the
  handler's result) or reaches the call (\<open>Inr\<close>, with the variables as they are then).
  The second stretch uses no local variable of the first; it works on the runtime
  variables as they are when the power cycle has returned.
\<close>

definition monitoring_until_cyclePlug ::
  "'w env \<Rightarrow> watchdog \<Rightarrow> 'w io \<Rightarrow> ((exn + unit) \<times> watchdog \<times> 'w io) + (watchdog \<times> 'w io)" where
  "monitoring_until_cyclePlug env wd io =
     (case checkThermostat env io of
        (Inl e, io1) \<Rightarrow> Inl (Inl e, wd, io1)
      | (Inr None, io1) \<Rightarrow> Inl (Inr (), wd, io1)
      | (Inr (Some data), io1) \<Rightarrow>
          let tempDiff = heatSetpoint data - data_temperature data;
              isHeating = (workingState data = ''heating'');
              isBelowThreshold = (tempDiff \<ge> tempThreshold CONFIG)
          in if isHeating \<and> lastWorkingState wd \<noteq> Some ''heating'' then
               Inl (Inr (),
                    wd\<lparr>ignitionStartTime := Some (Date_now env (world io1)),
                       tempHistory := [],
                       lastWorkingState := Some (workingState data),
                       state := WAITING_FOR_IGNITION\<rparr>,
                    io1)
             else
               let wd1 = wd\<lparr>lastWorkingState := Some (workingState data)\<rparr>;
                   wd2 = wd1\<lparr>tempHistory :=
                           addTempReading (Date_now env (world io1)) (data_temperature data)
                             (heatSetpoint data) (tempHistory wd1)\<rparr>;
                   isDeclining = isTemperatureDeclining (tempHistory wd2);
                   wd3 = (if cycleCount wd2 > 0 \<and> (\<not> isHeating \<or> \<not> isBelowThreshold)
                          then wd2\<lparr>cycleCount := 0\<rparr> else wd2)
               in if isHeating \<and> isBelowThreshold \<and> isDeclining then
                    if cycleCount wd3 \<ge> maxCycles CONFIG then
                      Inl (Inr (), wd3\<lparr>state := FAILED\<rparr>, io1)
                    else Inr (wd3, io1)
                  else Inl (Inr (), wd3, io1))"

definition monitoring_after_cyclePlug ::
  "'w env \<Rightarrow> exn + bool \<Rightarrow> watchdog \<Rightarrow> 'w io \<Rightarrow> (exn + unit) \<times> watchdog \<times> 'w io" where
  "monitoring_after_cyclePlug env returned wd io2 =
     (case returned of
        Inl e \<Rightarrow> (Inl e, wd, io2)
      | Inr success \<Rightarrow>
          if success then
            (Inr (),
             wd\<lparr>cycleCount := cycleCount wd + 1,
                lastCycleTime := Some (Date_now env (world io2)),
                state := WAITING_AFTER_CYCLE\<rparr>,
             io2)
          else (Inr (), wd, io2))"

text \<open>
  The watchdog states an execution can be in between ticks: the initial one, and what a
  tick makes of a reachable one, whatever the world outside is when the tick starts.
  These are the executions in which ticks run one after another, each completed before
  the next starts. \<^verbatim>\<open>setInterval\<close> does not enforce that: executions in which a tick
  starts while the previous one is suspended are the subject of \<open>overlapping\<close> below.
\<close>

inductive reachable :: "'w env \<Rightarrow> watchdog \<Rightarrow> bool" for env :: "'w env" where
  reachable_initial: "reachable env initial"
| reachable_tick: "reachable env wd \<Longrightarrow> tick env wd io = (r, wd', io') \<Longrightarrow> reachable env wd'"

text \<open>
  \<^verbatim>\<open>setInterval(tick, CONFIG.checkIntervalMs)\<close> (line 295) starts a tick every minute
  and does not wait for the previous \<^verbatim>\<open>async\<close> tick. While a tick is suspended at
  \<^verbatim>\<open>await cyclePlug()\<close> the next one can start, read the same \<^verbatim>\<open>cycleCount\<close> and
  reach the same call. \<open>overlapping\<close> runs such an execution: the runtime variables, the
  number of ticks suspended at \<^verbatim>\<open>await cyclePlug()\<close>, and a schedule of events, each
  with the world at that moment. \<open>TickStarts\<close> runs a new tick up to its end or up to the
  call of \<^verbatim>\<open>cyclePlug\<close>; \<open>CyclePlugReturns\<close> runs the power cycle of one suspended tick
  and the rest of its handler. Only this \<^verbatim>\<open>await\<close> is a point of interleaving here;
  the thermostat check of a tick is taken as one step.
\<close>

datatype 'w event = TickStarts 'w | CyclePlugReturns 'w

fun overlapping :: "'w env \<Rightarrow> watchdog \<times> nat \<Rightarrow> 'w event list \<Rightarrow> watchdog \<times> nat" where
  "overlapping env (wd, n) [] = (wd, n)"
| "overlapping env (wd, n) (TickStarts w # es) =
     (case state wd of
        MONITORING \<Rightarrow>
          (case monitoring_until_cyclePlug env wd \<lparr>world = w, calls = []\<rparr> of
             Inl (r, wd', io') \<Rightarrow> overlapping env (wd', n) es
           | Inr (wd', io') \<Rightarrow> overlapping env (wd', Suc n) es)
      | _ \<Rightarrow> overlapping env (fst (snd (tick env wd \<lparr>world = w, calls = []\<rparr>)), n) es)"
| "overlapping env (wd, n) (CyclePlugReturns w # es) =
     (case n of
        0 \<Rightarrow> overlapping env (wd, n) es
      | Suc m \<Rightarrow>
          (case cyclePlug env \<lparr>world = w, calls = []\<rparr> of
             (returned, io2) \<Rightarrow>
               overlapping env
                 (fst (snd (monitoring_after_cyclePlug env returned wd io2)), m) es))"

section \<open>Vocabulary of the properties\<close>

text \<open>Which logged calls are plug commands, and which ended in an exception.\<close>

fun is_plug_command :: "call \<Rightarrow> bool" where
  "is_plug_command (PlugOff m pm r) = True"
| "is_plug_command (PlugOn m pm r) = True"
| "is_plug_command c = False"

fun threw :: "call \<Rightarrow> bool" where
  "threw (GetDevices r) = isl r"
| "threw (GetThermostat m r) = isl r"
| "threw (PlugOff m pm r) = isl r"
| "threw (PlugOn m pm r) = isl r"

text \<open>The values thrown by the logged calls, in order.\<close>

fun thrown :: "call \<Rightarrow> exn option" where
  "thrown (GetDevices r) = (case r of Inl e \<Rightarrow> Some e | Inr v \<Rightarrow> None)"
| "thrown (GetThermostat m r) = (case r of Inl e \<Rightarrow> Some e | Inr v \<Rightarrow> None)"
| "thrown (PlugOff m pm r) = (case r of Inl e \<Rightarrow> Some e | Inr v \<Rightarrow> None)"
| "thrown (PlugOn m pm r) = (case r of Inl e \<Rightarrow> Some e | Inr v \<Rightarrow> None)"

definition thrown_values :: "call list \<Rightarrow> exn list" where
  "thrown_values cs = List.map_filter thrown cs"

text \<open>What the \<^verbatim>\<open>catch\<close> block of \<^verbatim>\<open>tick\<close> makes of the result of a handler.\<close>

definition caught :: "exn + unit \<Rightarrow> exn + unit" where
  "caught h =
     (case h of
        Inl Nullish \<Rightarrow> Inl (Error ''TypeError: Cannot read properties (reading message)'')
      | _ \<Rightarrow> Inr ())"

definition plug_commands :: "call list \<Rightarrow> call list" where
  "plug_commands cs = filter is_plug_command cs"

text \<open>
  The invariant of the cycle counter: it stays between 0 and \<^verbatim>\<open>maxCycles\<close>, and it is
  positive only while the last observed working state is \<^verbatim>\<open>"heating"\<close>.
\<close>

definition counter_inv :: "watchdog \<Rightarrow> bool" where
  "counter_inv wd \<longleftrightarrow>
     0 \<le> cycleCount wd \<and> cycleCount wd \<le> maxCycles CONFIG
     \<and> (0 < cycleCount wd \<longrightarrow> lastWorkingState wd = Some ''heating'')"

text \<open>
  The main loop (\<^verbatim>\<open>await tick()\<close>, then \<^verbatim>\<open>setInterval(tick, ...)\<close>) as a run of
  ticks, given the state of the world at the start of each tick.
\<close>

fun ticks :: "'w env \<Rightarrow> watchdog \<Rightarrow> 'w list \<Rightarrow> watchdog" where
  "ticks env wd [] = wd"
| "ticks env wd (w # ws) = ticks env (fst (snd (tick env wd \<lparr>world = w, calls = []\<rparr>))) ws"

text \<open>
  The two operations the program performs on \<^verbatim>\<open>tempHistory\<close>: a call of
  \<^verbatim>\<open>addTempReading\<close> and the assignment \<^verbatim>\<open>tempHistory = []\<close>. \<open>run_buffer\<close> applies
  a sequence of them to the empty buffer the program starts with; \<open>recorded\<close> is the
  specification's side: every sample recorded since the last clear, without a bound.
\<close>

datatype buffer_op = RecordSample int real real | ClearHistory

fun buffer_step :: "Sample list \<Rightarrow> buffer_op \<Rightarrow> Sample list" where
  "buffer_step hist (RecordSample now t sp) = addTempReading now t sp hist"
| "buffer_step hist ClearHistory = []"

definition run_buffer :: "buffer_op list \<Rightarrow> Sample list" where
  "run_buffer ops = foldl buffer_step [] ops"

fun recorded :: "Sample list \<Rightarrow> buffer_op list \<Rightarrow> Sample list" where
  "recorded acc [] = acc"
| "recorded acc (RecordSample now t sp # ops) =
     recorded (acc @ [\<lparr>timestamp = now, temperature = t, setpoint = sp\<rparr>]) ops"
| "recorded acc (ClearHistory # ops) = recorded [] ops"

section \<open>A concrete gateway\<close>

text \<open>
  A small gateway on which the definitions can be evaluated. The world is the wall clock
  in milliseconds and the room temperature; the thermostat always demands heat with the
  setpoint at 70, both devices are present and every command succeeds. The variants
  replace one call each.
\<close>

definition demo_devices :: "device list" where
  "demo_devices =
     [\<lparr>nickname = ''Living Room'', product_type = ''Thermostat'', mac = ''T1'',
       product_model = ''CO_EA1''\<rparr>,
      \<lparr>nickname = ''Living Room'', product_type = ''Plug'', mac = ''P1'',
       product_model = ''WLPP1''\<rparr>]"

definition demo_env :: "(int \<times> real) env" where
  "demo_env =
     \<lparr>getDevices = (\<lambda>w. (Inr demo_devices, w)),
      getThermostat = (\<lambda>m w. (Inr (Some \<lparr>workingState = ''heating'',
                          data_temperature = snd w, heatSetpoint = 70\<rparr>), w)),
      plugOff = (\<lambda>m pm w. (Inr True, w)),
      plugOn = (\<lambda>m pm w. (Inr True, w)),
      isPlugOn = (\<lambda>m pm w. (Inr True, w)),
      Date_now = fst,
      setTimeout = (\<lambda>ms w. (fst w + ms, snd w))\<rparr>"

definition plugOn_throws_env :: "(int \<times> real) env" where
  "plugOn_throws_env = demo_env\<lparr>plugOn := (\<lambda>m pm w. (Inl (Error ''timeout''), w))\<rparr>"

definition plugOff_fails_env :: "(int \<times> real) env" where
  "plugOff_fails_env = demo_env\<lparr>plugOff := (\<lambda>m pm w. (Inr False, w))\<rparr>"

definition getDevices_rejects_env :: "(int \<times> real) env" where
  "getDevices_rejects_env = demo_env\<lparr>getDevices := (\<lambda>w. (Inl Nullish, w))\<rparr>"

definition no_thermostat_env :: "(int \<times> real) env" where
  "no_thermostat_env = demo_env\<lparr>getDevices := (\<lambda>w. (Inr (tl demo_devices), w))\<rparr>"

text \<open>
  A gateway whose world also holds the power state of the plug. \<^verbatim>\<open>plugOff\<close> switches
  the plug off; \<^verbatim>\<open>plugOn\<close> answers with success and leaves the plug as it is;
  \<^verbatim>\<open>isPlugOn\<close> reports the power state.
\<close>

definition stuck_plug_env :: "(int \<times> real \<times> bool) env" where
  "stuck_plug_env =
     \<lparr>getDevices = (\<lambda>w. (Inr demo_devices, w)),
      getThermostat = (\<lambda>m w. (Inr (Some \<lparr>workingState = ''heating'',
                          data_temperature = fst (snd w), heatSetpoint = 70\<rparr>), w)),
      plugOff = (\<lambda>m pm w. (Inr True, (fst w, fst (snd w), False))),
      plugOn = (\<lambda>m pm w. (Inr True, w)),
      isPlugOn = (\<lambda>m pm w. (Inr (snd (snd w)), w)),
      Date_now = fst,
      setTimeout = (\<lambda>ms w. (fst w + ms, snd w))\<rparr>"

text \<open>
  Twelve ticks of \<open>demo_env\<close> in a room that keeps cooling: heating starts, the ignition
  wait passes, and three times two declining readings lead to a power cycle and its wait.
\<close>

definition demo_worlds :: "(int \<times> real) list" where
  "demo_worlds =
     [(0, 68), (600000, 68), (660000, 68), (720000, 66),
      (1330000, 66), (1390000, 66), (1450000, 64),
      (2060000, 64), (2120000, 64), (2180000, 62),
      (2790000, 62), (2850000, 62)]"

text \<open>A MONITORING state with one sample in the buffer, and a FAILED state.\<close>

definition demo_monitoring :: watchdog where
  "demo_monitoring =
     \<lparr>state = MONITORING, cycleCount = 0, lastCycleTime = None, ignitionStartTime = Some 0,
      lastWorkingState = Some ''heating'',
      tempHistory = [\<lparr>timestamp = 660000, temperature = 68, setpoint = 70\<rparr>]\<rparr>"

definition demo_failed :: watchdog where
  "demo_failed =
     \<lparr>state = FAILED, cycleCount = 3, lastCycleTime = Some 2190000, ignitionStartTime = Some 0,
      lastWorkingState = Some ''heating'',
      tempHistory = [\<lparr>timestamp = 2850000, temperature = 62, setpoint = 70\<rparr>,
                     \<lparr>timestamp = 2910000, temperature = 60, setpoint = 70\<rparr>]\<rparr>"

text \<open>The state after the first nine of the twelve ticks: two cycles counted.\<close>

definition demo_two_cycles :: watchdog where
  "demo_two_cycles =
     \<lparr>state = MONITORING, cycleCount = 2, lastCycleTime = Some 1460000,
      ignitionStartTime = Some 0, lastWorkingState = Some ''heating'',
      tempHistory = [\<lparr>timestamp = 2120000, temperature = 64, setpoint = 70\<rparr>]\<rparr>"

definition demo_exhausted :: watchdog where
  "demo_exhausted =
     \<lparr>state = MONITORING, cycleCount = 3, lastCycleTime = Some 2190000,
      ignitionStartTime = Some 0, lastWorkingState = Some ''heating'',
      tempHistory = [\<lparr>timestamp = 2850000, temperature = 62, setpoint = 70\<rparr>]\<rparr>"

text \<open>
  The world at the start of a tick, with an empty call log; the thermostat payload of
  \<open>demo_env\<close> at a room temperature; and the world and log after the thermostat check.
\<close>

definition io_at :: "int \<Rightarrow> real \<Rightarrow> (int \<times> real) io" where
  "io_at now room = \<lparr>world = (now, room), calls = []\<rparr>"

definition reading :: "real \<Rightarrow> thermostat_data" where
  "reading room = \<lparr>workingState = ''heating'', data_temperature = room, heatSetpoint = 70\<rparr>"

definition read_io :: "int \<Rightarrow> real \<Rightarrow> (int \<times> real) io" where
  "read_io now room =
     \<lparr>world = (now, room),
      calls = [GetDevices (Inr demo_devices), GetThermostat ''T1'' (Inr (Some (reading room)))]\<rparr>"

text \<open>Thirteen buffer operations: one reading, a clear, then eleven readings.\<close>

definition demo_ops :: "buffer_op list" where
  "demo_ops =
     [RecordSample 0 70 72, ClearHistory,
      RecordSample 1 70 72, RecordSample 2 70 72, RecordSample 3 70 72, RecordSample 4 70 72,
      RecordSample 5 69 72, RecordSample 6 69 72, RecordSample 7 69 72, RecordSample 8 69 72,
      RecordSample 9 68 72, RecordSample 10 68 72, RecordSample 11 68 72]"

lemmas demo_defs =
  demo_env_def demo_devices_def plugOn_throws_env_def plugOff_fails_env_def
  getDevices_rejects_env_def stuck_plug_env_def
  no_thermostat_env_def demo_worlds_def demo_monitoring_def demo_failed_def initial_def

lemmas machine_defs =
  tick_def handleMonitoring_def handleWaitingForIgnition_def handleWaitingAfterCycle_def
  handleFailed_def checkThermostat_def getThermostatByName_def wyze_getDevices_def
  wyze_getThermostat_def cyclePlug_def getPlugByName_def wyze_plugOff_def wyze_plugOn_def
  sleep_def addTempReading_def isTemperatureDeclining_def MAX_HISTORY_def CONFIG_def Let_def
  monitoring_until_cyclePlug_def monitoring_after_cyclePlug_def

section \<open>Properties of the trend detector\<close>

lemma compareIndex_nat: "nat (int n - 3) = n - 3"
  by arith

lemma current_is_last: "hist \<noteq> [] \<Longrightarrow> hist ! (length hist - 1) = last hist"
  by (simp add: last_conv_nth)

text \<open>
  C2. The trend detector returns true if and only if the buffer holds at least two
  samples, the setpoint of the most recent sample is not lower than the setpoint of the
  reference sample at index max(0, length - 3), and the reference temperature minus the
  current temperature is at least 1. In particular it is false on fewer than two samples,
  and false whenever the current setpoint is lower than the reference setpoint.
\<close>

theorem isTemperatureDeclining_iff:
  "(isTemperatureDeclining hist \<longleftrightarrow>
      2 \<le> length hist
      \<and> \<not> setpoint (last hist) < setpoint (hist ! nat (max 0 (int (length hist) - 3)))
      \<and> temperature (hist ! nat (max 0 (int (length hist) - 3))) - temperature (last hist) \<ge> 1)
   \<and> (length hist < 2 \<longrightarrow> \<not> isTemperatureDeclining hist)
   \<and> (setpoint (last hist) < setpoint (hist ! nat (max 0 (int (length hist) - 3)))
        \<longrightarrow> \<not> isTemperatureDeclining hist)"
proof (cases "length hist < 2")
  case True
  then show ?thesis
    by (simp add: isTemperatureDeclining_def)
next
  case False
  then have "hist \<noteq> []"
    by auto
  then have "hist ! (length hist - 1) = last hist"
    by (rule current_is_last)
  with False show ?thesis
    by (simp add: isTemperatureDeclining_def Let_def)
qed

theorem isTemperatureDeclining_iff_witness:
  "isTemperatureDeclining
     [\<lparr>timestamp = 0, temperature = 70, setpoint = 72\<rparr>,
      \<lparr>timestamp = 60000, temperature = 68.5, setpoint = 72\<rparr>]
   \<and> \<not> isTemperatureDeclining
     [\<lparr>timestamp = 0, temperature = 70, setpoint = 72\<rparr>,
      \<lparr>timestamp = 60000, temperature = 69.5, setpoint = 70\<rparr>]
   \<and> \<not> isTemperatureDeclining [\<lparr>timestamp = 0, temperature = 70, setpoint = 72\<rparr>]"
  using isTemperatureDeclining_iff
          [of "[\<lparr>timestamp = 0, temperature = 70, setpoint = 72\<rparr>,
                \<lparr>timestamp = 60000, temperature = 68.5, setpoint = 72\<rparr>]"]
        isTemperatureDeclining_iff
          [of "[\<lparr>timestamp = 0, temperature = 70, setpoint = 72\<rparr>,
                \<lparr>timestamp = 60000, temperature = 69.5, setpoint = 70\<rparr>]"]
        isTemperatureDeclining_iff
          [of "[\<lparr>timestamp = 0, temperature = 70, setpoint = 72\<rparr>]"]
  by simp

text \<open>
  C10. On a buffer of at least three samples the trend detector gives the same result as
  on the last three samples alone: only the most recent sample and the one at index
  length - 3 are read, so older samples never affect the decision.
\<close>

theorem isTemperatureDeclining_last_three:
  assumes "3 \<le> length hist"
  shows "isTemperatureDeclining hist = isTemperatureDeclining (drop (length hist - 3) hist)"
proof -
  let ?d = "drop (length hist - 3) hist"
  from assms have len: "length ?d = 3"
    by simp
  from assms have first: "?d ! 0 = hist ! (length hist - 3)"
    by simp
  from assms have "length hist - 3 + 2 = length hist - 1"
    by arith
  with assms have newest: "?d ! 2 = hist ! (length hist - 1)"
    by (simp del: One_nat_def)
  from assms have "isTemperatureDeclining hist =
      (\<not> setpoint (hist ! (length hist - 1)) < setpoint (hist ! (length hist - 3))
       \<and> temperature (hist ! (length hist - 3)) - temperature (hist ! (length hist - 1)) \<ge> 1)"
    by (simp add: isTemperatureDeclining_def Let_def compareIndex_nat)
  moreover have "isTemperatureDeclining ?d =
      (\<not> setpoint (?d ! 2) < setpoint (?d ! 0)
       \<and> temperature (?d ! 0) - temperature (?d ! 2) \<ge> 1)"
    unfolding isTemperatureDeclining_def Let_def len by simp
  ultimately show ?thesis
    by (simp only: first newest)
qed

theorem isTemperatureDeclining_last_three_witness:
  "isTemperatureDeclining
     [\<lparr>timestamp = 0, temperature = 40, setpoint = 90\<rparr>,
      \<lparr>timestamp = 1, temperature = 70, setpoint = 72\<rparr>,
      \<lparr>timestamp = 2, temperature = 69, setpoint = 72\<rparr>,
      \<lparr>timestamp = 3, temperature = 68.5, setpoint = 72\<rparr>]
   = isTemperatureDeclining
     [\<lparr>timestamp = 1, temperature = 70, setpoint = 72\<rparr>,
      \<lparr>timestamp = 2, temperature = 69, setpoint = 72\<rparr>,
      \<lparr>timestamp = 3, temperature = 68.5, setpoint = 72\<rparr>]"
  using isTemperatureDeclining_last_three
          [of "[\<lparr>timestamp = 0, temperature = 40, setpoint = 90\<rparr>,
                \<lparr>timestamp = 1, temperature = 70, setpoint = 72\<rparr>,
                \<lparr>timestamp = 2, temperature = 69, setpoint = 72\<rparr>,
                \<lparr>timestamp = 3, temperature = 68.5, setpoint = 72\<rparr>]"]
  by simp

section \<open>Properties of the history buffer\<close>

lemma addTempReading_step:
  "addTempReading now t sp hist =
     (if length hist < 10 then hist @ [\<lparr>timestamp = now, temperature = t, setpoint = sp\<rparr>]
      else tl hist @ [\<lparr>timestamp = now, temperature = t, setpoint = sp\<rparr>])"
proof (cases "length hist < 10")
  case True
  then show ?thesis
    by (simp add: addTempReading_def MAX_HISTORY_def Let_def)
next
  case False
  then have "hist \<noteq> []"
    by auto
  with False show ?thesis
    by (simp add: addTempReading_def MAX_HISTORY_def Let_def)
qed

lemma addTempReading_length:
  "length hist \<le> MAX_HISTORY \<Longrightarrow> length (addTempReading now t sp hist) \<le> MAX_HISTORY"
  by (simp add: addTempReading_step MAX_HISTORY_def)

text \<open>
  If the buffer is the last ten entries of an unbounded record, it is so again after the
  next reading has been added to both.
\<close>

lemma addTempReading_window:
  "addTempReading now t sp (drop (length acc - 10) acc) =
     drop (length (acc @ [\<lparr>timestamp = now, temperature = t, setpoint = sp\<rparr>]) - 10)
       (acc @ [\<lparr>timestamp = now, temperature = t, setpoint = sp\<rparr>])"
proof (cases "length acc < 10")
  case True
  then show ?thesis
    by (simp add: addTempReading_step)
next
  case False
  then have "Suc (length acc) - 10 = Suc (length acc - 10)"
    by arith
  with False show ?thesis
    by (simp add: addTempReading_step tl_drop drop_Suc)
qed

lemma foldl_buffer_window:
  "foldl buffer_step (drop (length acc - 10) acc) ops =
     drop (length (recorded acc ops) - 10) (recorded acc ops)"
proof (induction ops arbitrary: acc)
  case Nil
  show ?case by simp
next
  case (Cons a ops)
  show ?case
  proof (cases a)
    case (RecordSample now t sp)
    then show ?thesis
      using Cons.IH [of "acc @ [\<lparr>timestamp = now, temperature = t, setpoint = sp\<rparr>]"]
      by (simp only: foldl_Cons buffer_step.simps recorded.simps addTempReading_window)
  next
    case ClearHistory
    then show ?thesis
      using Cons.IH [of "[]"] by simp
  qed
qed

lemma run_buffer_window:
  "run_buffer ops = drop (length (recorded [] ops) - 10) (recorded [] ops)"
  using foldl_buffer_window [of "[]" ops] by (simp add: run_buffer_def)

lemma run_buffer_snoc: "run_buffer (ops @ [a]) = buffer_step (run_buffer ops) a"
  by (simp add: run_buffer_def)

section \<open>Gateway calls made by the procedures\<close>

lemma checkThermostat_calls:
  assumes "checkThermostat env io = (r, io1)"
  shows "\<exists>cs. calls io1 = calls io @ cs \<and> plug_commands cs = []
          \<and> (list_ex threw cs \<longleftrightarrow> isl r)"
  using assms
  by (auto simp: checkThermostat_def getThermostatByName_def wyze_getDevices_def
        wyze_getThermostat_def plug_commands_def
      split: prod.splits sum.splits option.splits)


lemma thrown_values_append: "thrown_values (cs @ ds) = thrown_values cs @ thrown_values ds"
  by (simp add: thrown_values_def map_filter_def)

lemma thrown_values_threw: "thrown_values cs \<noteq> [] \<longleftrightarrow> list_ex threw cs"
proof (induction cs)
  case Nil
  show ?case by (simp add: thrown_values_def)
next
  case (Cons c cs)
  then show ?case
    by (cases c) (auto simp: thrown_values_def split: sum.splits)
qed

text \<open>
  A procedure that throws has thrown the value of its last call, and no other call of
  it threw; one that returns has made no call that threw.
\<close>

lemma checkThermostat_thrown:
  assumes "checkThermostat env io = (r, io1)"
  shows "\<exists>cs. calls io1 = calls io @ cs
          \<and> thrown_values cs = (case r of Inl e \<Rightarrow> [e] | Inr v \<Rightarrow> [])"
  using assms
  by (auto simp: checkThermostat_def getThermostatByName_def wyze_getDevices_def
        wyze_getThermostat_def thrown_values_def
      split: prod.splits sum.splits option.splits)

lemma cyclePlug_thrown:
  assumes "cyclePlug env io = (r, io1)"
  shows "\<exists>cs. calls io1 = calls io @ cs
          \<and> thrown_values cs = (case r of Inl e \<Rightarrow> [e] | Inr v \<Rightarrow> [])"
  using assms
  by (auto simp: cyclePlug_def getPlugByName_def wyze_getDevices_def
        wyze_plugOff_def wyze_plugOn_def sleep_def Let_def thrown_values_def
      split: prod.splits sum.splits option.splits if_splits)

lemma checkThermostat_no_plug:
  "checkThermostat env io = (r, io1) \<Longrightarrow> plug_commands (calls io1) = plug_commands (calls io)"
  using checkThermostat_calls [of env io r io1] by (auto simp: plug_commands_def)

lemma cyclePlug_calls:
  assumes "cyclePlug env io = (r, io1)"
  shows "\<exists>cs. calls io1 = calls io @ cs \<and> (list_ex threw cs \<longleftrightarrow> isl r)"
  using assms
  by (auto simp: cyclePlug_def getPlugByName_def wyze_getDevices_def
        wyze_plugOff_def wyze_plugOn_def sleep_def Let_def
      split: prod.splits sum.splits option.splits if_splits)

text \<open>Every run of the power cycle makes at least one gateway call.\<close>

lemma cyclePlug_logs:
  "cyclePlug env io = (r, io') \<Longrightarrow> length (calls io) < length (calls io')"
  by (auto simp: cyclePlug_def getPlugByName_def wyze_getDevices_def
        wyze_plugOff_def wyze_plugOn_def sleep_def Let_def
      split: prod.splits sum.splits option.splits if_splits)


text \<open>
  The power cycle reports failure in three cases: the plug is not in the device list,
  \<^verbatim>\<open>plugOff\<close> reported failure, or \<^verbatim>\<open>plugOn\<close> reported failure after a successful
  \<^verbatim>\<open>plugOff\<close>.
\<close>

lemma cyclePlug_False:
  assumes "cyclePlug env io = (Inr False, io')"
  shows "\<exists>devices.
           (find (\<lambda>d. nickname d = plugName CONFIG \<and> product_type d = ''Plug'') devices = None
            \<and> calls io' = calls io @ [GetDevices (Inr devices)])
           \<or> (\<exists>plug.
                 find (\<lambda>d. nickname d = plugName CONFIG \<and> product_type d = ''Plug'') devices
                   = Some plug
                 \<and> (calls io' = calls io @
                       [GetDevices (Inr devices),
                        PlugOff (mac plug) (product_model plug) (Inr False)]
                    \<or> calls io' = calls io @
                       [GetDevices (Inr devices),
                        PlugOff (mac plug) (product_model plug) (Inr True),
                        PlugOn (mac plug) (product_model plug) (Inr False)]))"
  using assms
  by (auto simp: cyclePlug_def getPlugByName_def wyze_getDevices_def
        wyze_plugOff_def wyze_plugOn_def sleep_def Let_def
      split: prod.splits sum.splits option.splits if_splits)

section \<open>Properties of the handlers\<close>

text \<open>A tick either completes or rejects with the error raised in its \<^verbatim>\<open>catch\<close> block.\<close>

lemma tick_result:
  "tick env wd io = (r, wd', io') \<Longrightarrow>
     r = Inr () \<or> r = Inl (Error ''TypeError: Cannot read properties (reading message)'')"
  by (auto simp: tick_def split: prod.splits sum.splits State.splits exn.splits)

lemma tick_cases:
  assumes "tick env wd io = (r, wd', io')"
  obtains (mon) h where "state wd = MONITORING" "handleMonitoring env wd io = (h, wd', io')"
      "r = caught h"
  | (ign) h where "state wd = WAITING_FOR_IGNITION"
      "handleWaitingForIgnition env wd io = (h, wd', io')" "r = caught h"
  | (cyc) h where "state wd = WAITING_AFTER_CYCLE"
      "handleWaitingAfterCycle env wd io = (h, wd', io')" "r = caught h"
  | (fail) h where "state wd = FAILED" "handleFailed env wd io = (h, wd', io')"
      "r = caught h"
  using assms
  by (cases "state wd")
    (auto simp: tick_def caught_def split: prod.splits sum.splits exn.splits)

lemma handleMonitoring_Inl:
  "handleMonitoring env wd io = (Inl e, wd', io') \<Longrightarrow>
     state wd' = state wd \<and> cycleCount wd' = cycleCount wd"
  by (auto simp: handleMonitoring_def Let_def
      split: prod.splits sum.splits option.splits if_splits)

lemma handleFailed_Inl:
  "handleFailed env wd io = (Inl e, wd', io') \<Longrightarrow> wd' = wd"
  by (auto simp: handleFailed_def Let_def
      split: prod.splits sum.splits option.splits if_splits)

lemma handleMonitoring_calls:
  assumes "handleMonitoring env wd io = (r, wd', io')"
  shows "\<exists>cs. calls io' = calls io @ cs \<and> (list_ex threw cs \<longleftrightarrow> isl r)"
proof -
  obtain t io1 where ct: "checkThermostat env io = (t, io1)"
    by (cases "checkThermostat env io")
  from checkThermostat_calls [OF ct] obtain cs1 where
    cs1: "calls io1 = calls io @ cs1" "list_ex threw cs1 \<longleftrightarrow> isl t"
    by blast
  obtain p io2 where cp: "cyclePlug env io1 = (p, io2)"
    by (cases "cyclePlug env io1")
  from cyclePlug_calls [OF cp] obtain cs2 where
    cs2: "calls io2 = calls io1 @ cs2" "list_ex threw cs2 \<longleftrightarrow> isl p"
    by blast
  from assms ct cp have
    "(io' = io1 \<and> isl r = isl t) \<or> (io' = io2 \<and> \<not> isl t \<and> isl r = isl p)"
    by (auto simp: handleMonitoring_def Let_def
        split: prod.splits sum.splits option.splits if_splits)
  then show ?thesis
  proof
    assume "io' = io1 \<and> isl r = isl t"
    with cs1 show ?thesis by auto
  next
    assume "io' = io2 \<and> \<not> isl t \<and> isl r = isl p"
    with cs1 cs2 show ?thesis by auto
  qed
qed

lemma handleFailed_calls:
  assumes "handleFailed env wd io = (r, wd', io')"
  shows "\<exists>cs. calls io' = calls io @ cs \<and> (list_ex threw cs \<longleftrightarrow> isl r)"
proof -
  obtain t io1 where ct: "checkThermostat env io = (t, io1)"
    by (cases "checkThermostat env io")
  from checkThermostat_calls [OF ct] obtain cs1 where
    cs1: "calls io1 = calls io @ cs1" "list_ex threw cs1 \<longleftrightarrow> isl t"
    by blast
  from assms ct have "io' = io1 \<and> isl r = isl t"
    by (auto simp: handleFailed_def Let_def
        split: prod.splits sum.splits option.splits if_splits)
  with cs1 show ?thesis by auto
qed

lemma handleMonitoring_thrown:
  assumes "handleMonitoring env wd io = (r, wd', io')"
  shows "\<exists>cs. calls io' = calls io @ cs
          \<and> thrown_values cs = (case r of Inl e \<Rightarrow> [e] | Inr v \<Rightarrow> [])"
proof -
  obtain t io1 where ct: "checkThermostat env io = (t, io1)"
    by (cases "checkThermostat env io")
  from checkThermostat_thrown [OF ct] obtain cs1 where
    cs1: "calls io1 = calls io @ cs1"
      "thrown_values cs1 = (case t of Inl e \<Rightarrow> [e] | Inr v \<Rightarrow> [])"
    by blast
  obtain p io2 where cp: "cyclePlug env io1 = (p, io2)"
    by (cases "cyclePlug env io1")
  from cyclePlug_thrown [OF cp] obtain cs2 where
    cs2: "calls io2 = calls io1 @ cs2"
      "thrown_values cs2 = (case p of Inl e \<Rightarrow> [e] | Inr v \<Rightarrow> [])"
    by blast
  from assms ct cp have
    "(io' = io1 \<and> (case r of Inl e \<Rightarrow> t = Inl e | Inr v \<Rightarrow> \<not> isl t))
     \<or> (io' = io2 \<and> \<not> isl t \<and> (case r of Inl e \<Rightarrow> p = Inl e | Inr v \<Rightarrow> \<not> isl p))"
    by (auto simp: handleMonitoring_def Let_def
        split: prod.splits sum.splits option.splits if_splits)
  then show ?thesis
  proof
    assume "io' = io1 \<and> (case r of Inl e \<Rightarrow> t = Inl e | Inr v \<Rightarrow> \<not> isl t)"
    with cs1 show ?thesis
      by (cases r; cases t) auto
  next
    assume "io' = io2 \<and> \<not> isl t
        \<and> (case r of Inl e \<Rightarrow> p = Inl e | Inr v \<Rightarrow> \<not> isl p)"
    with cs1 cs2 have "calls io' = calls io @ (cs1 @ cs2)"
      and "thrown_values (cs1 @ cs2) = (case r of Inl e \<Rightarrow> [e] | Inr v \<Rightarrow> [])"
      by (cases r; cases t; cases p; auto simp: thrown_values_append)+
    then show ?thesis
      by blast
  qed
qed

lemma handleFailed_thrown:
  assumes "handleFailed env wd io = (r, wd', io')"
  shows "\<exists>cs. calls io' = calls io @ cs
          \<and> thrown_values cs = (case r of Inl e \<Rightarrow> [e] | Inr v \<Rightarrow> [])"
proof -
  obtain t io1 where ct: "checkThermostat env io = (t, io1)"
    by (cases "checkThermostat env io")
  from checkThermostat_thrown [OF ct] obtain cs1 where
    cs1: "calls io1 = calls io @ cs1"
      "thrown_values cs1 = (case t of Inl e \<Rightarrow> [e] | Inr v \<Rightarrow> [])"
    by blast
  from assms ct have "io' = io1 \<and> (case r of Inl e \<Rightarrow> t = Inl e | Inr v \<Rightarrow> \<not> isl t)"
    by (auto simp: handleFailed_def Let_def
        split: prod.splits sum.splits option.splits if_splits)
  with cs1 show ?thesis
    by (cases r; cases t) auto
qed

text \<open>
  The two stretches of \<^verbatim>\<open>handleMonitoring\<close>, run one after the other with the power
  cycle between them, are the handler.
\<close>

lemma handleMonitoring_split:
  "handleMonitoring env wd io =
     (case monitoring_until_cyclePlug env wd io of
        Inl finished \<Rightarrow> finished
      | Inr (wd3, io1) \<Rightarrow>
          (case cyclePlug env io1 of
             (returned, io2) \<Rightarrow> monitoring_after_cyclePlug env returned wd3 io2))"
  by (auto simp: handleMonitoring_def monitoring_until_cyclePlug_def
        monitoring_after_cyclePlug_def Let_def
      split: prod.splits sum.splits option.splits)

lemma handleWaitingForIgnition_io:
  "handleWaitingForIgnition env wd io = (r, wd', io') \<Longrightarrow> io' = io \<and> r = Inr ()"
  by (auto simp: handleWaitingForIgnition_def Let_def split: if_splits)

lemma handleWaitingAfterCycle_io:
  "handleWaitingAfterCycle env wd io = (r, wd', io') \<Longrightarrow> io' = io \<and> r = Inr ()"
  by (auto simp: handleWaitingAfterCycle_def Let_def split: if_splits)

subsection \<open>The cycle counter\<close>

lemma handleMonitoring_counter:
  assumes "handleMonitoring env wd io = (r, wd', io')"
  shows "cycleCount wd' = cycleCount wd \<or> cycleCount wd' = 0
         \<or> (cycleCount wd' = cycleCount wd + 1 \<and> cycleCount wd < maxCycles CONFIG
             \<and> state wd' = WAITING_AFTER_CYCLE \<and> lastWorkingState wd' = Some ''heating''
             \<and> (\<exists>io1. cyclePlug env io1 = (Inr True, io')))"
  using assms
  by (auto simp: handleMonitoring_def Let_def
      split: prod.splits sum.splits option.splits if_splits)

lemma handleMonitoring_last:
  assumes "handleMonitoring env wd io = (r, wd', io')"
    and "0 < cycleCount wd \<longrightarrow> lastWorkingState wd = Some ''heating''"
  shows "0 < cycleCount wd' \<longrightarrow> lastWorkingState wd' = Some ''heating''"
  using assms
  by (auto simp: handleMonitoring_def Let_def
      split: prod.splits sum.splits option.splits if_splits)

lemma handleFailed_counter:
  assumes "handleFailed env wd io = (r, wd', io')"
  shows "wd' = wd \<or> cycleCount wd' = 0"
  using assms
  by (auto simp: handleFailed_def Let_def
      split: prod.splits sum.splits option.splits if_splits)

lemma handleWaitingForIgnition_counter:
  assumes "handleWaitingForIgnition env wd io = (r, wd', io')"
  shows "cycleCount wd' = cycleCount wd \<and> lastWorkingState wd' = lastWorkingState wd"
  using assms
  by (auto simp: handleWaitingForIgnition_def Let_def split: if_splits)

lemma handleWaitingAfterCycle_counter:
  assumes "handleWaitingAfterCycle env wd io = (r, wd', io')"
  shows "cycleCount wd' = cycleCount wd \<and> lastWorkingState wd' = lastWorkingState wd"
  using assms
  by (auto simp: handleWaitingAfterCycle_def Let_def split: if_splits)

lemma tick_counter_step:
  assumes "tick env wd io = (r, wd', io')"
  shows "cycleCount wd' = cycleCount wd \<or> cycleCount wd' = 0
         \<or> (cycleCount wd' = cycleCount wd + 1 \<and> cycleCount wd < maxCycles CONFIG
             \<and> state wd = MONITORING \<and> state wd' = WAITING_AFTER_CYCLE
             \<and> (\<exists>io1. cyclePlug env io1 = (Inr True, io')))"
  using assms
proof (cases rule: tick_cases)
  case (mon h)
  from handleMonitoring_counter [OF mon(2)] mon(1) show ?thesis by blast
next
  case (ign h)
  from handleWaitingForIgnition_counter [OF ign(2)] show ?thesis by simp
next
  case (cyc h)
  from handleWaitingAfterCycle_counter [OF cyc(2)] show ?thesis by simp
next
  case (fail h)
  from handleFailed_counter [OF fail(2)] show ?thesis by auto
qed

lemma tick_counter_inv:
  assumes "tick env wd io = (r, wd', io')" and "counter_inv wd"
  shows "counter_inv wd'"
  using assms(1)
proof (cases rule: tick_cases)
  case (mon h)
  from assms(2) have "0 < cycleCount wd \<longrightarrow> lastWorkingState wd = Some ''heating''"
    by (simp add: counter_inv_def)
  from handleMonitoring_counter [OF mon(2)] handleMonitoring_last [OF mon(2) this] assms(2)
  show ?thesis
    by (auto simp: counter_inv_def CONFIG_def)
next
  case (ign h)
  from handleWaitingForIgnition_counter [OF ign(2)] assms(2) show ?thesis
    by (simp add: counter_inv_def)
next
  case (cyc h)
  from handleWaitingAfterCycle_counter [OF cyc(2)] assms(2) show ?thesis
    by (simp add: counter_inv_def)
next
  case (fail h)
  from handleFailed_counter [OF fail(2)] assms(2) show ?thesis
    by (auto simp: counter_inv_def CONFIG_def)
qed

lemma reachable_counter_inv: "reachable env wd \<Longrightarrow> counter_inv wd"
proof (induction rule: reachable.induct)
  case reachable_initial
  show ?case by (simp add: counter_inv_def initial_def CONFIG_def)
next
  case (reachable_tick wd io r wd' io')
  then show ?case by (blast intro: tick_counter_inv)
qed

lemma reachable_ticks: "reachable env wd \<Longrightarrow> reachable env (ticks env wd ws)"
proof (induction ws arbitrary: wd)
  case Nil
  then show ?case by simp
next
  case (Cons w ws)
  obtain r wd' io' where t: "tick env wd \<lparr>world = w, calls = []\<rparr> = (r, wd', io')"
    by (cases "tick env wd \<lparr>world = w, calls = []\<rparr>")
  with Cons.prems have "reachable env wd'"
    by (blast intro: reachable.reachable_tick)
  then have "reachable env (ticks env wd' ws)"
    by (rule Cons.IH)
  with t show ?case by simp
qed

subsection \<open>The length of the history buffer\<close>

lemma tick_history_length:
  assumes "tick env wd io = (r, wd', io')" and "length (tempHistory wd) \<le> MAX_HISTORY"
  shows "length (tempHistory wd') \<le> MAX_HISTORY"
  using assms(1)
proof (cases rule: tick_cases)
  case (mon h)
  then show ?thesis
    using assms(2) addTempReading_length [OF assms(2)]
    by (auto simp: handleMonitoring_def Let_def
        split: prod.splits sum.splits option.splits if_splits)
next
  case (ign h)
  then show ?thesis
    using assms(2) by (auto simp: handleWaitingForIgnition_def Let_def split: if_splits)
next
  case (cyc h)
  then show ?thesis
    using assms(2) by (auto simp: handleWaitingAfterCycle_def Let_def split: if_splits)
next
  case (fail h)
  then show ?thesis
    using assms(2)
    by (auto simp: handleFailed_def Let_def
        split: prod.splits sum.splits option.splits if_splits)
qed

lemma reachable_history_length: "reachable env wd \<Longrightarrow> length (tempHistory wd) \<le> MAX_HISTORY"
proof (induction rule: reachable.induct)
  case reachable_initial
  show ?case by (simp add: initial_def)
next
  case (reachable_tick wd io r wd' io')
  then show ?case by (blast intro: tick_history_length)
qed

text \<open>
  A tick leaves the buffer, empties it or records one reading; so the buffer of a reachable
  state is the result of a sequence of recordings and clears.
\<close>

lemma tick_history_step:
  assumes "tick env wd io = (r, wd', io')"
  shows "tempHistory wd' = tempHistory wd \<or> tempHistory wd' = []
         \<or> (\<exists>now t sp. tempHistory wd' = addTempReading now t sp (tempHistory wd))"
  using assms
proof (cases rule: tick_cases)
  case (mon h)
  then show ?thesis
    by (auto simp: handleMonitoring_def Let_def
        split: prod.splits sum.splits option.splits if_splits) blast+
next
  case (ign h)
  then show ?thesis
    by (auto simp: handleWaitingForIgnition_def Let_def split: if_splits)
next
  case (cyc h)
  then show ?thesis
    by (auto simp: handleWaitingAfterCycle_def Let_def split: if_splits)
next
  case (fail h)
  then show ?thesis
    by (auto simp: handleFailed_def Let_def
        split: prod.splits sum.splits option.splits if_splits)
qed

lemma reachable_history_run: "reachable env wd \<Longrightarrow> \<exists>ops. tempHistory wd = run_buffer ops"
proof (induction rule: reachable.induct)
  case reachable_initial
  have "tempHistory initial = run_buffer []"
    by (simp add: initial_def run_buffer_def)
  then show ?case ..
next
  case (reachable_tick wd io r wd' io')
  then obtain ops where ops: "tempHistory wd = run_buffer ops"
    by blast
  from tick_history_step [OF reachable_tick.hyps(2)] show ?case
  proof (elim disjE exE)
    assume "tempHistory wd' = tempHistory wd"
    with ops show ?thesis by auto
  next
    assume "tempHistory wd' = []"
    then have "tempHistory wd' = run_buffer (ops @ [ClearHistory])"
      by (simp add: run_buffer_snoc)
    then show ?thesis ..
  next
    fix now t sp
    assume "tempHistory wd' = addTempReading now t sp (tempHistory wd)"
    with ops have "tempHistory wd' = run_buffer (ops @ [RecordSample now t sp])"
      by (simp add: run_buffer_snoc)
    then show ?thesis ..
  qed
qed

subsection \<open>Overlapping runs with one tick at a time\<close>

text \<open>
  When each tick is completed before the next one starts, an overlapping run is a run of
  whole ticks: a tick that ends before \<^verbatim>\<open>cyclePlug\<close> is one \<open>TickStarts\<close> event, and a
  tick that calls \<^verbatim>\<open>cyclePlug\<close> is a \<open>TickStarts\<close> event followed at once by its
  \<open>CyclePlugReturns\<close> event. The call log plays no role in what the power cycle returns.
\<close>

lemma cyclePlug_log_free:
  "fst (cyclePlug env \<lparr>world = world io, calls = cs\<rparr>) = fst (cyclePlug env io)
   \<and> world (snd (cyclePlug env \<lparr>world = world io, calls = cs\<rparr>)) = world (snd (cyclePlug env io))"
  by (auto simp: cyclePlug_def getPlugByName_def wyze_getDevices_def
        wyze_plugOff_def wyze_plugOn_def sleep_def Let_def
      split: prod.splits sum.splits option.splits if_splits)

lemma monitoring_after_cyclePlug_world:
  "world io2 = world io2' \<Longrightarrow>
     fst (snd (monitoring_after_cyclePlug env returned wd io2))
       = fst (snd (monitoring_after_cyclePlug env returned wd io2'))"
  by (simp add: monitoring_after_cyclePlug_def split: sum.splits)

lemma tick_MONITORING_watchdog:
  "state wd = MONITORING \<Longrightarrow>
     fst (snd (tick env wd io)) = fst (snd (handleMonitoring env wd io))"
  by (simp add: tick_def split: prod.splits sum.splits exn.splits)

lemma overlapping_tick_finishes:
  assumes "state wd = MONITORING"
    and "monitoring_until_cyclePlug env wd \<lparr>world = w, calls = []\<rparr> = Inl finished"
  shows "overlapping env (wd, n) (TickStarts w # es)
           = overlapping env (fst (snd (tick env wd \<lparr>world = w, calls = []\<rparr>)), n) es"
  using assms
  by (cases finished) (simp add: tick_MONITORING_watchdog handleMonitoring_split)

lemma overlapping_one_at_a_time:
  assumes "state wd = MONITORING"
    and "monitoring_until_cyclePlug env wd \<lparr>world = w, calls = []\<rparr> = Inr (wd3, io1)"
  shows "overlapping env (wd, n) (TickStarts w # CyclePlugReturns (world io1) # es)
           = overlapping env (fst (snd (tick env wd \<lparr>world = w, calls = []\<rparr>)), n) es"
proof -
  obtain returned io2 where c: "cyclePlug env io1 = (returned, io2)"
    by (cases "cyclePlug env io1")
  obtain returned' io2' where c': "cyclePlug env \<lparr>world = world io1, calls = []\<rparr> = (returned', io2')"
    by (cases "cyclePlug env \<lparr>world = world io1, calls = []\<rparr>")
  from cyclePlug_log_free [of env io1 "[]"] c c' have same: "returned' = returned" "world io2' = world io2"
    by simp_all
  have "fst (snd (tick env wd \<lparr>world = w, calls = []\<rparr>))
          = fst (snd (monitoring_after_cyclePlug env returned wd3 io2))"
    using assms c by (simp add: tick_MONITORING_watchdog handleMonitoring_split)
  also have "\<dots> = fst (snd (monitoring_after_cyclePlug env returned' wd3 io2'))"
    using same monitoring_after_cyclePlug_world [of io2 io2'] by simp
  finally show ?thesis
    using assms c' by simp
qed

subsection \<open>The concrete run\<close>



lemma demo_two_cycles_reachable: "reachable demo_env demo_two_cycles"
proof -
  have "ticks demo_env initial (take 9 demo_worlds) = demo_two_cycles"
    by (simp add: demo_defs demo_two_cycles_def machine_defs)
  with reachable_ticks [OF reachable_initial, of demo_env "take 9 demo_worlds"]
  show ?thesis by simp
qed

text \<open>After the first three of these ticks one sample is in the buffer and no cycle is counted.\<close>

lemma demo_monitoring_reachable: "reachable demo_env demo_monitoring"
proof -
  have "ticks demo_env initial (take 3 demo_worlds) = demo_monitoring"
    by (simp add: demo_defs machine_defs)
  with reachable_ticks [OF reachable_initial, of demo_env "take 3 demo_worlds"]
  show ?thesis by simp
qed

lemma demo_checkThermostat:
  "checkThermostat demo_env (io_at now room) = (Inr (Some (reading room)), read_io now room)"
  by (simp add: io_at_def reading_def read_io_def demo_defs checkThermostat_def
      getThermostatByName_def wyze_getDevices_def wyze_getThermostat_def CONFIG_def)

text \<open>
  The tick that finds the room cooling from 68 to 66 degrees cycles the plug and counts
  the cycle.
\<close>

lemma demo_cycle_tick:
  "tick demo_env demo_monitoring (io_at 720000 66) =
     (Inr (),
      \<lparr>state = WAITING_AFTER_CYCLE, cycleCount = 1, lastCycleTime = Some 730000,
       ignitionStartTime = Some 0, lastWorkingState = Some ''heating'',
       tempHistory =
         [\<lparr>timestamp = 660000, temperature = 68, setpoint = 70\<rparr>,
          \<lparr>timestamp = 720000, temperature = 66, setpoint = 70\<rparr>]\<rparr>,
      \<lparr>world = (730000, 66),
       calls = calls (read_io 720000 66) @
         [GetDevices (Inr demo_devices),
          PlugOff ''P1'' ''WLPP1'' (Inr True),
          PlugOn ''P1'' ''WLPP1'' (Inr True)]\<rparr>)"
  by (simp add: io_at_def read_io_def reading_def demo_defs machine_defs)

text \<open>
  The same tick when \<^verbatim>\<open>plugOn\<close> throws: the exception ends the tick after the sample
  was recorded and the plug was switched off.
\<close>

lemma plugOn_throws_tick:
  "tick plugOn_throws_env demo_monitoring (io_at 720000 66) =
     (Inr (),
      demo_monitoring\<lparr>tempHistory :=
        [\<lparr>timestamp = 660000, temperature = 68, setpoint = 70\<rparr>,
         \<lparr>timestamp = 720000, temperature = 66, setpoint = 70\<rparr>]\<rparr>,
      \<lparr>world = (730000, 66),
       calls = calls (read_io 720000 66) @
         [GetDevices (Inr demo_devices),
          PlugOff ''P1'' ''WLPP1'' (Inr True),
          PlugOn ''P1'' ''WLPP1'' (Inl (Error ''timeout''))]\<rparr>)"
  by (simp add: io_at_def read_io_def reading_def demo_defs machine_defs)

text \<open>With three cycles counted, the next declining reading ends in FAILED.\<close>

lemma demo_failed_tick:
  "tick demo_env demo_exhausted (io_at 2910000 60) = (Inr (), demo_failed, read_io 2910000 60)"
  by (simp add: io_at_def read_io_def reading_def demo_exhausted_def demo_defs machine_defs)

lemma plugOff_fails_checkThermostat:
  "checkThermostat plugOff_fails_env (io_at now room)
     = (Inr (Some (reading room)), read_io now room)"
  by (simp add: io_at_def reading_def read_io_def demo_defs checkThermostat_def
      getThermostatByName_def wyze_getDevices_def wyze_getThermostat_def CONFIG_def)

lemma plugOff_fails_cyclePlug:
  "cyclePlug plugOff_fails_env (read_io now room)
     = (Inr False,
        \<lparr>world = (now, room),
         calls = calls (read_io now room) @
           [GetDevices (Inr demo_devices), PlugOff ''P1'' ''WLPP1'' (Inr False)]\<rparr>)"
  by (simp add: read_io_def demo_defs cyclePlug_def getPlugByName_def wyze_getDevices_def
      wyze_plugOff_def CONFIG_def)

section \<open>Properties of the state machine\<close>






text \<open>
  C4. In a FAILED tick with a thermostat reading: if the working state is not "heating"
  or the temperature is less than \<^verbatim>\<open>tempThreshold\<close> below the setpoint, the cycle count
  becomes 0, the history buffer is emptied and the state becomes MONITORING; otherwise
  nothing changes and the state stays FAILED. In both cases no plug command is sent.
\<close>

theorem failed_state_tick:
  assumes "state wd = FAILED"
    and "checkThermostat env io = (Inr (Some data), io1)"
  shows "(workingState data \<noteq> ''heating''
            \<or> heatSetpoint data - data_temperature data < tempThreshold CONFIG
          \<longrightarrow> tick env wd io
                = (Inr (), wd\<lparr>cycleCount := 0, tempHistory := [], state := MONITORING\<rparr>, io1))
       \<and> (\<not> (workingState data \<noteq> ''heating''
               \<or> heatSetpoint data - data_temperature data < tempThreshold CONFIG)
          \<longrightarrow> tick env wd io = (Inr (), wd, io1))
       \<and> plug_commands (calls io1) = plug_commands (calls io)"
  using assms checkThermostat_no_plug [OF assms(2)]
  by (auto simp: tick_def handleFailed_def Let_def)

theorem failed_state_tick_witness:
  "state demo_failed = FAILED
   \<and> tick demo_env demo_failed (io_at 2970000 69)
       = (Inr (), demo_failed\<lparr>cycleCount := 0, tempHistory := [], state := MONITORING\<rparr>,
          read_io 2970000 69)
   \<and> tick demo_env demo_failed (io_at 2970000 60) = (Inr (), demo_failed, read_io 2970000 60)
   \<and> plug_commands (calls (read_io 2970000 60)) = plug_commands (calls (io_at 2970000 60))"
proof -
  have s: "state demo_failed = FAILED"
    by (simp add: demo_failed_def)
  from failed_state_tick [OF s demo_checkThermostat [of 2970000 69]]
    failed_state_tick [OF s demo_checkThermostat [of 2970000 60]] s
  show ?thesis
    by (simp add: reading_def CONFIG_def)
qed

text \<open>
  C5. The claim: if a gateway call throws during a tick, the exception is caught inside
  \<^verbatim>\<open>tick\<close> and does not propagate, and the watchdog state and the cycle count are after
  the tick what they were before it. The code at a gateway whose \<^verbatim>\<open>getDevices\<close>
  rejects with \<^verbatim>\<open>undefined\<close>: the \<^verbatim>\<open>catch\<close> block throws a \<^verbatim>\<open>TypeError\<close> while it
  reads \<^verbatim>\<open>error.message\<close>, and the tick rejects with it. The runtime variables are
  unchanged.
\<close>

theorem tick_rejects_when_undefined_is_thrown:
  "tick getDevices_rejects_env demo_monitoring (io_at 720000 66)
     = (Inl (Error ''TypeError: Cannot read properties (reading message)''),
        demo_monitoring,
        \<lparr>world = (720000, 66), calls = [GetDevices (Inl Nullish)]\<rparr>)"
  by (simp add: io_at_def getDevices_rejects_env_def demo_env_def demo_monitoring_def tick_def
      handleMonitoring_def checkThermostat_def getThermostatByName_def wyze_getDevices_def
      CONFIG_def)

text \<open>
  What holds of every tick in which a gateway call throws, whatever the thrown value:
  the watchdog state and the cycle count are unchanged, and the tick completes normally
  exactly when the thrown value is not \<^verbatim>\<open>undefined\<close> or \<^verbatim>\<open>null\<close>.
\<close>

theorem tick_exception_keeps_state:
  assumes "tick env wd io = (r, wd', io')"
    and "calls io' = calls io @ cs"
    and "\<exists>c \<in> set cs. threw c"
  shows "state wd' = state wd \<and> cycleCount wd' = cycleCount wd
         \<and> (r = Inr () \<longleftrightarrow> Nullish \<notin> set (thrown_values cs))"
proof -
  have thrown: "thrown_values cs \<noteq> []"
    using assms(3) by (simp add: thrown_values_threw list_ex_iff)
  from assms(1) show ?thesis
  proof (cases rule: tick_cases)
    case (mon h)
    from handleMonitoring_thrown [OF mon(2)] assms(2) have
      tv: "thrown_values cs = (case h of Inl e \<Rightarrow> [e] | Inr v \<Rightarrow> [])"
      by auto
    with thrown obtain e where e: "h = Inl e" "thrown_values cs = [e]"
      by (cases h) auto
    with mon(2) handleMonitoring_Inl [of env wd io e wd' io'] mon(3) show ?thesis
      by (cases e) (simp_all add: caught_def)
  next
    case (ign h)
    from handleWaitingForIgnition_io [OF ign(2)] assms(2) thrown show ?thesis
      by (simp add: thrown_values_def)
  next
    case (cyc h)
    from handleWaitingAfterCycle_io [OF cyc(2)] assms(2) thrown show ?thesis
      by (simp add: thrown_values_def)
  next
    case (fail h)
    from handleFailed_thrown [OF fail(2)] assms(2) have
      tv: "thrown_values cs = (case h of Inl e \<Rightarrow> [e] | Inr v \<Rightarrow> [])"
      by auto
    with thrown obtain e where e: "h = Inl e" "thrown_values cs = [e]"
      by (cases h) auto
    with fail(2) handleFailed_Inl [of env wd io e wd' io'] fail(3) show ?thesis
      by (cases e) (simp_all add: caught_def)
  qed
qed

theorem tick_exception_keeps_state_witness:
  "threw (PlugOn ''P1'' ''WLPP1'' (Inl (Error ''timeout'')))
   \<and> PlugOn ''P1'' ''WLPP1'' (Inl (Error ''timeout''))
       \<in> set (calls (snd (snd (tick plugOn_throws_env demo_monitoring (io_at 720000 66)))))
   \<and> fst (tick plugOn_throws_env demo_monitoring (io_at 720000 66)) = Inr ()
   \<and> state (fst (snd (tick plugOn_throws_env demo_monitoring (io_at 720000 66)))) = MONITORING
   \<and> cycleCount (fst (snd (tick plugOn_throws_env demo_monitoring (io_at 720000 66)))) = 0"
proof -
  let ?cs = "calls (read_io 720000 66) @
         [GetDevices (Inr demo_devices),
          PlugOff ''P1'' ''WLPP1'' (Inr True),
          PlugOn ''P1'' ''WLPP1'' (Inl (Error ''timeout''))]"
  have c: "calls \<lparr>world = (730000 :: int, 66 :: real), calls = ?cs\<rparr>
             = calls (io_at 720000 66) @ ?cs"
    by (simp add: io_at_def)
  have t: "\<exists>c \<in> set ?cs. threw c"
    by simp
  from tick_exception_keeps_state [OF plugOn_throws_tick c t] show ?thesis
    unfolding plugOn_throws_tick by (simp add: demo_monitoring_def)
qed

text \<open>
  C6. In a MONITORING tick that reaches the intervention test (the last observed working
  state is already "heating") with the reading "heating", at least \<^verbatim>\<open>tempThreshold\<close>
  below the setpoint and declining, and with fewer than \<^verbatim>\<open>maxCycles\<close> cycles counted:
  if the power cycle returns failure, the machine stays in MONITORING, and the cycle count
  and the time of the last cycle are unchanged. Only the history buffer has the new
  reading.
\<close>

theorem failed_power_cycle_stays_MONITORING:
  assumes "state wd = MONITORING"
    and "checkThermostat env io = (Inr (Some data), io1)"
    and "lastWorkingState wd = Some ''heating''"
    and "workingState data = ''heating''"
    and "heatSetpoint data - data_temperature data \<ge> tempThreshold CONFIG"
    and "isTemperatureDeclining
           (addTempReading (Date_now env (world io1)) (data_temperature data)
              (heatSetpoint data) (tempHistory wd))"
    and "cycleCount wd < maxCycles CONFIG"
    and "cyclePlug env io1 = (Inr False, io2)"
  shows "\<exists>wd'. tick env wd io = (Inr (), wd', io2)
           \<and> wd' = wd\<lparr>tempHistory :=
                       addTempReading (Date_now env (world io1)) (data_temperature data)
                         (heatSetpoint data) (tempHistory wd)\<rparr>
           \<and> state wd' = MONITORING
           \<and> cycleCount wd' = cycleCount wd \<and> lastCycleTime wd' = lastCycleTime wd"
  using assms
  by (simp add: tick_def handleMonitoring_def Let_def)

theorem failed_power_cycle_stays_MONITORING_witness:
  "state demo_monitoring = MONITORING
   \<and> cycleCount demo_monitoring < maxCycles CONFIG
   \<and> isTemperatureDeclining (addTempReading 720000 66 70 (tempHistory demo_monitoring))
   \<and> fst (cyclePlug plugOff_fails_env (read_io 720000 66)) = Inr False
   \<and> (\<exists>wd'. tick plugOff_fails_env demo_monitoring (io_at 720000 66)
               = (Inr (), wd', snd (cyclePlug plugOff_fails_env (read_io 720000 66)))
         \<and> state wd' = MONITORING
         \<and> cycleCount wd' = cycleCount demo_monitoring
         \<and> lastCycleTime wd' = lastCycleTime demo_monitoring)"
proof -
  have h1: "state demo_monitoring = MONITORING"
    by (simp add: demo_monitoring_def)
  have h3: "lastWorkingState demo_monitoring = Some ''heating''"
    by (simp add: demo_monitoring_def)
  have h4: "workingState (reading 66) = ''heating''"
    by (simp add: reading_def)
  have h5: "heatSetpoint (reading 66) - data_temperature (reading 66) \<ge> tempThreshold CONFIG"
    by (simp add: reading_def CONFIG_def)
  have d: "isTemperatureDeclining (addTempReading 720000 66 70 (tempHistory demo_monitoring))"
    by (simp add: demo_monitoring_def addTempReading_def isTemperatureDeclining_def
        MAX_HISTORY_def Let_def)
  then have h6: "isTemperatureDeclining
              (addTempReading (Date_now plugOff_fails_env (world (read_io 720000 66)))
                 (data_temperature (reading 66)) (heatSetpoint (reading 66))
                 (tempHistory demo_monitoring))"
    by (simp add: reading_def read_io_def plugOff_fails_env_def demo_env_def)
  have h7: "cycleCount demo_monitoring < maxCycles CONFIG"
    by (simp add: demo_monitoring_def CONFIG_def)
  have "\<exists>wd'. tick plugOff_fails_env demo_monitoring (io_at 720000 66)
               = (Inr (), wd', snd (cyclePlug plugOff_fails_env (read_io 720000 66)))
         \<and> state wd' = MONITORING
         \<and> cycleCount wd' = cycleCount demo_monitoring
         \<and> lastCycleTime wd' = lastCycleTime demo_monitoring"
    using failed_power_cycle_stays_MONITORING
         [OF h1 plugOff_fails_checkThermostat h3 h4 h5 h6 h7 plugOff_fails_cyclePlug]
    by (simp add: plugOff_fails_cyclePlug)
  with h1 h7 d show ?thesis
    by (simp add: plugOff_fails_cyclePlug)
qed

text \<open>
  C7. The buffer bound is 10. Recording appends the sample at the end and, when the buffer
  already holds ten, drops exactly the oldest. After any sequence of recordings and clears,
  starting from the empty buffer, the buffer is the last min(k, 10) of the k samples
  recorded since the last clear, in their order of insertion. In every reachable state of
  the watchdog the buffer holds at most ten samples and is the result of such a sequence.
\<close>

theorem history_buffer_fifo:
  "MAX_HISTORY = 10
   \<and> addTempReading now t sp hist =
       (if length hist < 10 then hist @ [\<lparr>timestamp = now, temperature = t, setpoint = sp\<rparr>]
        else tl hist @ [\<lparr>timestamp = now, temperature = t, setpoint = sp\<rparr>])
   \<and> run_buffer ops = drop (length (recorded [] ops) - 10) (recorded [] ops)
   \<and> length (run_buffer ops) = min (length (recorded [] ops)) 10
   \<and> (reachable env wd
        \<longrightarrow> length (tempHistory wd) \<le> 10 \<and> (\<exists>ops'. tempHistory wd = run_buffer ops'))"
proof -
  have "length (run_buffer ops) = min (length (recorded [] ops)) 10"
    by (simp add: run_buffer_window)
  moreover have "length (tempHistory wd) \<le> 10 \<and> (\<exists>ops'. tempHistory wd = run_buffer ops')"
    if "reachable env wd"
    using that reachable_history_length [of env wd] reachable_history_run [of env wd]
    by (simp add: MAX_HISTORY_def)
  ultimately show ?thesis
    using addTempReading_step [of now t sp hist] run_buffer_window [of ops]
    by (simp add: MAX_HISTORY_def)
qed

theorem history_buffer_fifo_witness:
  "reachable demo_env demo_monitoring
   \<and> length (tempHistory demo_monitoring) \<le> 10
   \<and> (\<exists>ops'. tempHistory demo_monitoring = run_buffer ops')
   \<and> length (run_buffer demo_ops) = 10
   \<and> run_buffer demo_ops =
       [\<lparr>timestamp = 2, temperature = 70, setpoint = 72\<rparr>,
        \<lparr>timestamp = 3, temperature = 70, setpoint = 72\<rparr>,
        \<lparr>timestamp = 4, temperature = 70, setpoint = 72\<rparr>,
        \<lparr>timestamp = 5, temperature = 69, setpoint = 72\<rparr>,
        \<lparr>timestamp = 6, temperature = 69, setpoint = 72\<rparr>,
        \<lparr>timestamp = 7, temperature = 69, setpoint = 72\<rparr>,
        \<lparr>timestamp = 8, temperature = 69, setpoint = 72\<rparr>,
        \<lparr>timestamp = 9, temperature = 68, setpoint = 72\<rparr>,
        \<lparr>timestamp = 10, temperature = 68, setpoint = 72\<rparr>,
        \<lparr>timestamp = 11, temperature = 68, setpoint = 72\<rparr>]"
  using history_buffer_fifo [where ops = demo_ops and env = demo_env and wd = demo_monitoring]
    demo_monitoring_reachable
  by (simp add: demo_ops_def MAX_HISTORY_def)

text \<open>
  C8. The claim: the cycle count is always between 0 and \<^verbatim>\<open>maxCycles\<close>, and every tick
  keeps it there. The code, when a tick starts while the previous one is still suspended
  at \<^verbatim>\<open>await cyclePlug()\<close>: from the reachable state \<open>demo_two_cycles\<close>, with two
  cycles counted, both ticks pass the test \<^verbatim>\<open>cycleCount >= CONFIG.maxCycles\<close> of line
  163 with the count at 2, both power cycles succeed, and both ticks run
  \<^verbatim>\<open>cycleCount++\<close>: the count is 4, above \<^verbatim>\<open>maxCycles\<close> = 3, and the plug has been
  cycled four times.
\<close>

theorem overlapping_ticks_exceed_maxCycles:
  "reachable demo_env demo_two_cycles
   \<and> cycleCount demo_two_cycles = 2
   \<and> maxCycles CONFIG = 3
   \<and> overlapping demo_env (demo_two_cycles, 0)
       [TickStarts (2180000, 62), TickStarts (2240000, 60),
        CyclePlugReturns (2250000, 60), CyclePlugReturns (2260000, 60)]
       = (\<lparr>state = WAITING_AFTER_CYCLE, cycleCount = 4, lastCycleTime = Some 2270000,
           ignitionStartTime = Some 0, lastWorkingState = Some ''heating'',
           tempHistory =
             [\<lparr>timestamp = 2120000, temperature = 64, setpoint = 70\<rparr>,
              \<lparr>timestamp = 2180000, temperature = 62, setpoint = 70\<rparr>,
              \<lparr>timestamp = 2240000, temperature = 60, setpoint = 70\<rparr>]\<rparr>,
          0)"
proof -
  have "overlapping demo_env (demo_two_cycles, 0)
       [TickStarts (2180000, 62), TickStarts (2240000, 60),
        CyclePlugReturns (2250000, 60), CyclePlugReturns (2260000, 60)]
       = (\<lparr>state = WAITING_AFTER_CYCLE, cycleCount = 4, lastCycleTime = Some 2270000,
           ignitionStartTime = Some 0, lastWorkingState = Some ''heating'',
           tempHistory =
             [\<lparr>timestamp = 2120000, temperature = 64, setpoint = 70\<rparr>,
              \<lparr>timestamp = 2180000, temperature = 62, setpoint = 70\<rparr>,
              \<lparr>timestamp = 2240000, temperature = 60, setpoint = 70\<rparr>]\<rparr>,
          0)"
    by (simp add: demo_two_cycles_def demo_defs machine_defs)
  with demo_two_cycles_reachable show ?thesis
    by (simp add: demo_two_cycles_def CONFIG_def)
qed

text \<open>
  What holds when ticks run one after another, each completed before the next starts:
  the cycle count starts at 0; every tick keeps it between 0 and \<^verbatim>\<open>maxCycles\<close>, and
  either leaves it, resets it to 0, or adds 1 to it, the last only in a MONITORING tick
  that started below \<^verbatim>\<open>maxCycles\<close>, ran a successful power cycle and entered
  WAITING_AFTER_CYCLE. Hence the bound holds in every state reachable by such ticks.
\<close>

theorem cycleCount_bounded:
  assumes "tick env wd io = (r, wd', io')"
  shows "cycleCount initial = 0
       \<and> (0 \<le> cycleCount wd \<and> cycleCount wd \<le> maxCycles CONFIG
            \<longrightarrow> 0 \<le> cycleCount wd' \<and> cycleCount wd' \<le> maxCycles CONFIG)
       \<and> (cycleCount wd' = cycleCount wd \<or> cycleCount wd' = 0
           \<or> (cycleCount wd' = cycleCount wd + 1 \<and> cycleCount wd < maxCycles CONFIG
               \<and> state wd = MONITORING \<and> state wd' = WAITING_AFTER_CYCLE
               \<and> (\<exists>io1. cyclePlug env io1 = (Inr True, io'))))
       \<and> (reachable env wd
            \<longrightarrow> 0 \<le> cycleCount wd \<and> cycleCount wd \<le> maxCycles CONFIG
                \<and> 0 \<le> cycleCount wd' \<and> cycleCount wd' \<le> maxCycles CONFIG)"
proof -
  have start: "cycleCount initial = 0"
    by (simp add: initial_def)
  note step = tick_counter_step [OF assms]
  from step have keep: "0 \<le> cycleCount wd \<and> cycleCount wd \<le> maxCycles CONFIG
      \<longrightarrow> 0 \<le> cycleCount wd' \<and> cycleCount wd' \<le> maxCycles CONFIG"
    by (auto simp: CONFIG_def)
  have always: "0 \<le> cycleCount wd \<and> cycleCount wd \<le> maxCycles CONFIG
      \<and> 0 \<le> cycleCount wd' \<and> cycleCount wd' \<le> maxCycles CONFIG"
    if reach: "reachable env wd"
  proof -
    from reach have "counter_inv wd"
      by (rule reachable_counter_inv)
    then have "0 \<le> cycleCount wd \<and> cycleCount wd \<le> maxCycles CONFIG"
      by (simp add: counter_inv_def)
    with keep show ?thesis
      by simp
  qed
  from start keep step always show ?thesis
    by blast
qed

theorem cycleCount_bounded_witness:
  "cycleCount initial = 0
   \<and> reachable demo_env demo_monitoring
   \<and> cycleCount demo_monitoring = 0
   \<and> cycleCount (fst (snd (tick demo_env demo_monitoring (io_at 720000 66)))) = 1
   \<and> cycleCount (fst (snd (tick demo_env demo_monitoring (io_at 720000 66))))
       \<le> maxCycles CONFIG
   \<and> state (fst (snd (tick demo_env demo_monitoring (io_at 720000 66)))) = WAITING_AFTER_CYCLE
   \<and> (\<exists>io1. cyclePlug demo_env io1
               = (Inr True, snd (snd (tick demo_env demo_monitoring (io_at 720000 66)))))"
  using cycleCount_bounded [OF demo_cycle_tick] demo_monitoring_reachable
  unfolding demo_cycle_tick by (simp add: demo_monitoring_def)

text \<open>
  C9. If, in a MONITORING or FAILED tick, the device list of the gateway has no thermostat
  with the configured name, the thermostat check returns null and the tick completes
  normally after that one call, with every runtime variable unchanged: state, cycle count,
  history buffer, timers and last observed working state.
\<close>

theorem missing_thermostat_skips_tick:
  assumes "state wd = MONITORING \<or> state wd = FAILED"
    and "getDevices env (world io) = (Inr devices, w)"
    and "\<forall>d \<in> set devices.
           \<not> (nickname d = thermostatName CONFIG \<and> product_type d = ''Thermostat'')"
  shows "checkThermostat env io
           = (Inr None, \<lparr>world = w, calls = calls io @ [GetDevices (Inr devices)]\<rparr>)
         \<and> tick env wd io
           = (Inr (), wd, \<lparr>world = w, calls = calls io @ [GetDevices (Inr devices)]\<rparr>)"
proof -
  from assms(3) have
    "find (\<lambda>d. nickname d = thermostatName CONFIG \<and> product_type d = ''Thermostat'') devices
       = None"
    by (simp add: find_None_iff)
  with assms(2) have ct: "checkThermostat env io
           = (Inr None, \<lparr>world = w, calls = calls io @ [GetDevices (Inr devices)]\<rparr>)"
    by (simp add: checkThermostat_def getThermostatByName_def wyze_getDevices_def)
  from assms(1) ct show ?thesis
    by (auto simp: tick_def handleMonitoring_def handleFailed_def)
qed

theorem missing_thermostat_skips_tick_witness:
  "state demo_monitoring = MONITORING \<and> state demo_failed = FAILED
   \<and> getDevices no_thermostat_env (world (io_at 720000 66))
       = (Inr (tl demo_devices), (720000, 66))
   \<and> tick no_thermostat_env demo_monitoring (io_at 720000 66)
       = (Inr (), demo_monitoring,
          \<lparr>world = (720000, 66), calls = [GetDevices (Inr (tl demo_devices))]\<rparr>)
   \<and> tick no_thermostat_env demo_failed (io_at 720000 66)
       = (Inr (), demo_failed,
          \<lparr>world = (720000, 66), calls = [GetDevices (Inr (tl demo_devices))]\<rparr>)"
proof -
  have g: "getDevices no_thermostat_env (world (io_at 720000 66))
             = (Inr (tl demo_devices), (720000, 66))"
    by (simp add: no_thermostat_env_def demo_env_def io_at_def)
  have n: "\<forall>d \<in> set (tl demo_devices).
             \<not> (nickname d = thermostatName CONFIG \<and> product_type d = ''Thermostat'')"
    by (simp add: demo_devices_def)
  have m: "state demo_monitoring = MONITORING \<or> state demo_monitoring = FAILED"
    by (simp add: demo_monitoring_def)
  have f: "state demo_failed = MONITORING \<or> state demo_failed = FAILED"
    by (simp add: demo_failed_def)
  from missing_thermostat_skips_tick [OF m g n] missing_thermostat_skips_tick [OF f g n] g
  show ?thesis
    by (simp add: io_at_def) (simp add: demo_monitoring_def demo_failed_def)
qed

end
